theory Spec2Isabelle
  imports Complex_Main "HOL-Library.Word"
begin

unbundle bit_operations_syntax

section \<open>Machine types and the SSE2 intrinsics used by the class\<close>

type_synonym uint64_t = "64 word"

text \<open>
  \<^verbatim>\<open>__m128i\<close>: a 128-bit cell, seen by every intrinsic the class uses as two
  64-bit lanes. \<open>lane0\<close> is the low half (bits 0..63), \<open>lane1\<close> the high half.
\<close>

record m128i =
  lane0 :: uint64_t
  lane1 :: uint64_t

definition mm_set1_epi64x :: "uint64_t \<Rightarrow> m128i" where
  "mm_set1_epi64x a = \<lparr>lane0 = a, lane1 = a\<rparr>"

definition mm_xor_si128 :: "m128i \<Rightarrow> m128i \<Rightarrow> m128i" where
  "mm_xor_si128 a b = \<lparr>lane0 = lane0 a XOR lane0 b, lane1 = lane1 a XOR lane1 b\<rparr>"

definition mm_add_epi64 :: "m128i \<Rightarrow> m128i \<Rightarrow> m128i" where
  "mm_add_epi64 a b = \<lparr>lane0 = lane0 a + lane0 b, lane1 = lane1 a + lane1 b\<rparr>"

definition mm_sub_epi64 :: "m128i \<Rightarrow> m128i \<Rightarrow> m128i" where
  "mm_sub_epi64 a b = \<lparr>lane0 = lane0 a - lane0 b, lane1 = lane1 a - lane1 b\<rparr>"

text \<open>\<^verbatim>\<open>_mm_cvtsi128_si64\<close> copies the low lane; the result is read as a signed
  64-bit integer by the caller (\<open>sint\<close>).\<close>

definition mm_cvtsi128_si64 :: "m128i \<Rightarrow> uint64_t" where
  "mm_cvtsi128_si64 a = lane0 a"


section \<open>Arithmetic types and \<^verbatim>\<open>static_cast\<close>\<close>

text \<open>
  The template parameter \<^verbatim>\<open>T\<close>. The arithmetic types of the x64 target the header
  is written for (\<^verbatim>\<open>__forceinline\<close>, \<^verbatim>\<open>__declspec(noinline)\<close>), by
  signedness and width: \<^verbatim>\<open>char\<close>, \<^verbatim>\<open>signed char\<close> are \<open>T_int8\<close>;
  \<^verbatim>\<open>unsigned char\<close>, \<^verbatim>\<open>char8_t\<close> are \<open>T_uint8\<close>; \<^verbatim>\<open>short\<close> is
  \<open>T_int16\<close>; \<^verbatim>\<open>unsigned short\<close>, \<^verbatim>\<open>wchar_t\<close>, \<^verbatim>\<open>char16_t\<close> are
  \<open>T_uint16\<close>; \<^verbatim>\<open>int\<close>, \<^verbatim>\<open>long\<close> are \<open>T_int32\<close>; \<^verbatim>\<open>unsigned\<close>,
  \<^verbatim>\<open>unsigned long\<close>, \<^verbatim>\<open>char32_t\<close> are \<open>T_uint32\<close>; \<^verbatim>\<open>long long\<close> is
  \<open>T_int64\<close>; \<^verbatim>\<open>unsigned long long\<close> is \<open>T_uint64\<close>; \<^verbatim>\<open>float\<close> is
  \<open>T_float\<close> (IEEE-754 binary32); \<^verbatim>\<open>double\<close> and \<^verbatim>\<open>long double\<close> are
  \<open>T_double\<close> (binary64).
\<close>

datatype arith_type =
    T_bool
  | T_int8 | T_uint8
  | T_int16 | T_uint16
  | T_int32 | T_uint32
  | T_int64 | T_uint64
  | T_float | T_double

text \<open>Every type a template argument can name: the arithmetic ones and the rest
  (enumerations, pointers, class types), which \<^verbatim>\<open>std::is_arithmetic\<close> rejects.\<close>

datatype cxx_type = Arithmetic arith_type | Enumeration | Pointer | Class_type

fun is_arithmetic :: "cxx_type \<Rightarrow> bool" where
  "is_arithmetic (Arithmetic A) = True"
| "is_arithmetic Enumeration = False"
| "is_arithmetic Pointer = False"
| "is_arithmetic Class_type = False"

fun bit_width :: "arith_type \<Rightarrow> nat" where
  "bit_width T_bool = 8"
| "bit_width T_int8 = 8"
| "bit_width T_uint8 = 8"
| "bit_width T_int16 = 16"
| "bit_width T_uint16 = 16"
| "bit_width T_int32 = 32"
| "bit_width T_uint32 = 32"
| "bit_width T_int64 = 64"
| "bit_width T_uint64 = 64"
| "bit_width T_float = 32"
| "bit_width T_double = 64"

fun is_signed_integer :: "arith_type \<Rightarrow> bool" where
  "is_signed_integer T_int8 = True"
| "is_signed_integer T_int16 = True"
| "is_signed_integer T_int32 = True"
| "is_signed_integer T_int64 = True"
| "is_signed_integer T = False"

fun is_floating_point :: "arith_type \<Rightarrow> bool" where
  "is_floating_point T_float = True"
| "is_floating_point T_double = True"
| "is_floating_point T = False"

definition is_integral :: "arith_type \<Rightarrow> bool" where
  "is_integral T = (\<not> is_floating_point T)"

text \<open>
  A value of an arithmetic type is carried as its object representation: the bit pattern
  of the value, in the low \<open>bit_width T\<close> bits of a 64-bit word (two's complement for the
  integers, 0 or 1 for \<^verbatim>\<open>bool\<close>, the IEEE-754 encoding for the floating-point types).
  Two values are bit-identical when these words are equal.
\<close>

type_synonym obj_repr = "64 word"

definition valid_repr :: "arith_type \<Rightarrow> obj_repr \<Rightarrow> bool" where
  "valid_repr T v = (if T = T_bool then v = 0 \<or> v = 1 else take_bit (bit_width T) v = v)"

subsection \<open>IEEE-754 binary formats\<close>

text \<open>Exponent and fraction field widths of \<^verbatim>\<open>float\<close> (8, 23) and \<^verbatim>\<open>double\<close> (11, 52).\<close>

fun exponent_bits :: "arith_type \<Rightarrow> nat" where
  "exponent_bits T_float = 8"
| "exponent_bits T = 11"

fun fraction_bits :: "arith_type \<Rightarrow> nat" where
  "fraction_bits T_float = 23"
| "fraction_bits T = 52"

definition exponent_bias :: "nat \<Rightarrow> nat" where
  "exponent_bias ew = 2 ^ (ew - 1) - 1"

text \<open>
  Floating point to \<^verbatim>\<open>uint64_t\<close>: the value is truncated towards zero. The conversion is
  undefined when the truncated value is not representable (a NaN, an infinity, a value of
  at most -1 or of at least 2^64); that is \<open>None\<close>. With biased exponent \<open>E\<close> and fraction
  \<open>M\<close> the magnitude is \<open>(2^mw + M) * 2^(E - bias - mw)\<close> for a normal number; below
  exponent \<open>bias\<close> (subnormals and zeros included) the magnitude is less than 1.
\<close>

definition float_to_uint64 :: "nat \<Rightarrow> nat \<Rightarrow> obj_repr \<Rightarrow> uint64_t option" where
  "float_to_uint64 ew mw v =
     (let negative = bit v (ew + mw);
          E = unat (take_bit ew (drop_bit mw v));
          M = unat (take_bit mw v);
          bias = exponent_bias ew
      in if E = 2 ^ ew - 1 then None
         else if E < bias then Some 0
         else
           let significand = 2 ^ mw + M;
               e = E - bias;
               magnitude = (if mw \<le> e then significand * 2 ^ (e - mw)
                            else significand div 2 ^ (mw - e))
           in if negative \<or> 2 ^ 64 \<le> magnitude then None
              else Some (word_of_nat magnitude))"

text \<open>Number of binary digits of a natural number (0 for 0).\<close>

fun bit_length :: "nat \<Rightarrow> nat" where
  "bit_length n = (if n = 0 then 0 else Suc (bit_length (n div 2)))"

declare bit_length.simps [simp del]

text \<open>
  A non-negative integer to the nearest floating-point value, ties to the even
  significand (the default rounding mode). \<open>k\<close> is the position of the leading one. Up to
  \<open>mw + 1\<close> significant bits the conversion is exact; beyond, the low \<open>k - mw\<close> bits
  are rounded away, and a carry out of the significand moves to the next exponent.
\<close>

definition float_of_nat :: "nat \<Rightarrow> nat \<Rightarrow> nat \<Rightarrow> obj_repr" where
  "float_of_nat ew mw n =
     (if n = 0 then 0
      else
        let k = bit_length n - 1;
            bias = exponent_bias ew
        in if k \<le> mw then
             word_of_nat ((k + bias) * 2 ^ mw + (n * 2 ^ (mw - k) - 2 ^ mw))
           else
             let sh = k - mw;
                 q = n div 2 ^ sh;
                 r = n mod 2 ^ sh;
                 half = 2 ^ (sh - 1);
                 q' = (if half < r \<or> (r = half \<and> odd q) then q + 1 else q)
             in if q' = 2 ^ (mw + 1) then word_of_nat ((k + 1 + bias) * 2 ^ mw)
                else word_of_nat ((k + bias) * 2 ^ mw + (q' - 2 ^ mw)))"

definition float_of_int :: "nat \<Rightarrow> nat \<Rightarrow> int \<Rightarrow> obj_repr" where
  "float_of_int ew mw i =
     (if i < 0 then push_bit (ew + mw) 1 OR float_of_nat ew mw (nat (- i))
      else float_of_nat ew mw (nat i))"

subsection \<open>The three conversions of the header\<close>

text \<open>\<^verbatim>\<open>static_cast<uint64_t>(value)\<close> of the macro, for \<open>value\<close> of type \<open>T\<close>:
  \<^verbatim>\<open>bool\<close> gives 0 or 1, a signed integer is sign-extended, an unsigned one
  zero-extended, a floating-point value truncated.\<close>

definition static_cast_uint64 :: "arith_type \<Rightarrow> obj_repr \<Rightarrow> uint64_t option" where
  "static_cast_uint64 T v =
     (if T = T_bool then Some (if v = 0 then 0 else 1)
      else if is_floating_point T then float_to_uint64 (exponent_bits T) (fraction_bits T) v
      else if is_signed_integer T then Some (signed_take_bit (bit_width T - 1) v)
      else Some (take_bit (bit_width T) v))"

text \<open>\<^verbatim>\<open>static_cast<T>(x)\<close> for \<open>x\<close> of type \<^verbatim>\<open>uint64_t\<close> (in \<^verbatim>\<open>GetCrypt\<close>):
  \<^verbatim>\<open>bool\<close> is \<open>x \<noteq> 0\<close>, an integer type keeps the low bits, a floating-point type
  takes the nearest value.\<close>

definition static_cast_from_uint64 :: "arith_type \<Rightarrow> uint64_t \<Rightarrow> obj_repr" where
  "static_cast_from_uint64 T x =
     (if T = T_bool then (if x = 0 then 0 else 1)
      else if is_floating_point T then float_of_nat (exponent_bits T) (fraction_bits T) (unat x)
      else take_bit (bit_width T) x)"

text \<open>\<^verbatim>\<open>static_cast<T>(x)\<close> for \<open>x\<close> of type \<^verbatim>\<open>long long\<close> (in \<^verbatim>\<open>Get\<close>, on the
  result of \<^verbatim>\<open>_mm_cvtsi128_si64\<close>).\<close>

definition static_cast_from_int64 :: "arith_type \<Rightarrow> uint64_t \<Rightarrow> obj_repr" where
  "static_cast_from_int64 T x =
     (if T = T_bool then (if x = 0 then 0 else 1)
      else if is_floating_point T then float_of_int (exponent_bits T) (fraction_bits T) (sint x)
      else take_bit (bit_width T) x)"


section \<open>The class template \<^verbatim>\<open>XorConstant<T, ConstantValue, Seed>\<close>\<close>

text \<open>
  \<^verbatim>\<open>hash::key64\<close> comes from \<^verbatim>\<open>FnvHash.hpp\<close>, which the class includes; it is a
  parameter \<open>key64\<close> of everything below. The two keys are static constants of the class:
  \<^verbatim>\<open>__LINE__\<close> stands in the header itself, on line 82 in the initialiser of \<open>XorKey\<close>
  and on line 83 in that of \<open>AddKey\<close>.
\<close>

definition XorKey :: "(uint64_t \<Rightarrow> uint64_t) \<Rightarrow> uint64_t \<Rightarrow> uint64_t" where
  "XorKey key64 Seed = key64 (Seed - 82)"

definition AddKey :: "(uint64_t \<Rightarrow> uint64_t) \<Rightarrow> uint64_t \<Rightarrow> uint64_t" where
  "AddKey key64 Seed = key64 (Seed + 83)"

text \<open>The object: its only data member.\<close>

record XorConstant =
  m_encryptedData :: m128i

text \<open>Member functions take the object and return it with their result.\<close>

definition EncryptData ::
  "(uint64_t \<Rightarrow> uint64_t) \<Rightarrow> uint64_t \<Rightarrow> uint64_t \<Rightarrow> XorConstant \<Rightarrow> XorConstant" where
  "EncryptData key64 Seed data this =
     (let result = mm_set1_epi64x data;
          result = mm_xor_si128 result (mm_set1_epi64x (XorKey key64 Seed));
          result = mm_add_epi64 result (mm_set1_epi64x (AddKey key64 Seed))
      in this\<lparr>m_encryptedData := result\<rparr>)"

text \<open>The constructor: the member starts as \<^verbatim>\<open>{}\<close> and the body encrypts
  \<^verbatim>\<open>ConstantValue\<close>.\<close>

definition XorConstant_ctor ::
  "(uint64_t \<Rightarrow> uint64_t) \<Rightarrow> uint64_t \<Rightarrow> uint64_t \<Rightarrow> XorConstant" where
  "XorConstant_ctor key64 ConstantValue Seed =
     EncryptData key64 Seed ConstantValue
       \<lparr>m_encryptedData = \<lparr>lane0 = 0, lane1 = 0\<rparr>\<rparr>"

definition DecryptData ::
  "(uint64_t \<Rightarrow> uint64_t) \<Rightarrow> uint64_t \<Rightarrow> XorConstant \<Rightarrow> uint64_t \<times> XorConstant" where
  "DecryptData key64 Seed this =
     (let result = m_encryptedData this;
          result = mm_sub_epi64 result (mm_set1_epi64x (AddKey key64 Seed));
          result = mm_xor_si128 result (mm_set1_epi64x (XorKey key64 Seed))
      in (mm_cvtsi128_si64 result, this))"

definition Get :: "arith_type \<Rightarrow> XorConstant \<Rightarrow> obj_repr \<times> XorConstant" where
  "Get T this = (static_cast_from_int64 T (mm_cvtsi128_si64 (m_encryptedData this)), this)"

definition GetCrypt ::
  "(uint64_t \<Rightarrow> uint64_t) \<Rightarrow> arith_type \<Rightarrow> uint64_t \<Rightarrow> XorConstant
     \<Rightarrow> obj_repr \<times> XorConstant" where
  "GetCrypt key64 T Seed this =
     (case DecryptData key64 Seed this of (d, this') \<Rightarrow> (static_cast_from_uint64 T d, this'))"

subsection \<open>Instantiation\<close>

text \<open>What the build can answer instead of an object.\<close>

datatype build_error = Static_assert_not_arithmetic

text \<open>\<^verbatim>\<open>MakeXorConstantImpl<T, ConstantValue, Seed>()\<close> instantiates the class, whose
  \<^verbatim>\<open>static_assert\<close> rejects a \<open>T\<close> that is not arithmetic, and returns a constructed
  object.\<close>

definition MakeXorConstantImpl ::
  "(uint64_t \<Rightarrow> uint64_t) \<Rightarrow> cxx_type \<Rightarrow> uint64_t \<Rightarrow> uint64_t
     \<Rightarrow> build_error + XorConstant" where
  "MakeXorConstantImpl key64 T ConstantValue Seed =
     (if is_arithmetic T then Inr (XorConstant_ctor key64 ConstantValue Seed)
      else Inl Static_assert_not_arithmetic)"

text \<open>
  The macro \<^verbatim>\<open>MakeXorConstant(value)\<close>, expanded where it is used. \<^verbatim>\<open>__FILE__\<close> is the
  file of the use; the line of the use does not occur in the expansion. \<^verbatim>\<open>hash::fnv64\<close>
  (of \<^verbatim>\<open>FnvHash.hpp\<close>) and the build's \<^verbatim>\<open>UNIQUE_SEED64\<close> are parameters. \<open>T\<close> is
  \<^verbatim>\<open>decltype(value)\<close>, here an arithmetic type, and \<open>v\<close> the value. Where the conversion
  to \<^verbatim>\<open>uint64_t\<close> is undefined the template argument is not a constant expression and
  the expansion does not build: \<open>None\<close>.
\<close>

record call_site =
  FILE :: string
  LINE :: nat

definition MakeXorConstant ::
  "(uint64_t \<Rightarrow> uint64_t) \<Rightarrow> (uint64_t \<Rightarrow> string \<Rightarrow> uint64_t) \<Rightarrow> uint64_t \<Rightarrow> call_site
     \<Rightarrow> arith_type \<Rightarrow> obj_repr \<Rightarrow> (build_error + XorConstant) option" where
  "MakeXorConstant key64 fnv64 UNIQUE_SEED64 site T v =
     (case static_cast_uint64 T v of
        None \<Rightarrow> None
      | Some ConstantValue \<Rightarrow>
          Some (MakeXorConstantImpl key64 (Arithmetic T) ConstantValue
                  (fnv64 UNIQUE_SEED64 (FILE site))))"

subsection \<open>Sequences of accessor calls on one object\<close>

datatype accessor = Call_Get | Call_GetCrypt

fun call ::
  "(uint64_t \<Rightarrow> uint64_t) \<Rightarrow> arith_type \<Rightarrow> uint64_t \<Rightarrow> accessor \<Rightarrow> XorConstant
     \<Rightarrow> obj_repr \<times> XorConstant" where
  "call key64 T Seed Call_Get this = Get T this"
| "call key64 T Seed Call_GetCrypt this = GetCrypt key64 T Seed this"

fun calls ::
  "(uint64_t \<Rightarrow> uint64_t) \<Rightarrow> arith_type \<Rightarrow> uint64_t \<Rightarrow> accessor list \<Rightarrow> XorConstant
     \<Rightarrow> obj_repr list \<times> XorConstant" where
  "calls key64 T Seed [] this = ([], this)"
| "calls key64 T Seed (c # cs) this =
     (case call key64 T Seed c this of
        (r, this') \<Rightarrow> (case calls key64 T Seed cs this' of (rs, this'') \<Rightarrow> (r # rs, this'')))"

section \<open>Key derivations used to evaluate concrete instances\<close>

text \<open>
  Modelled from the spec: \<^verbatim>\<open>FnvHash.hpp\<close> (\<^verbatim>\<open>hash::key64\<close>, \<^verbatim>\<open>hash::fnv64\<close>) is not
  among the sources, and the specification fixes no algorithm for it: any deterministic
  64-bit function serves. Every general statement below holds for all such functions.
  \<open>fnv_key64\<close> and \<open>fnv_fnv64\<close> are one choice, in the manner of FNV-1a with the
  standard 64-bit offset basis and prime; \<open>fnv_key64\<close> is injective.
\<close>

definition fnv_offset_basis :: uint64_t where
  "fnv_offset_basis = 0xcbf29ce484222325"

definition fnv_prime :: uint64_t where
  "fnv_prime = 0x100000001b3"

definition fnv_key64 :: "uint64_t \<Rightarrow> uint64_t" where
  "fnv_key64 s = (fnv_offset_basis XOR s) * fnv_prime"

definition fnv_fnv64 :: "uint64_t \<Rightarrow> string \<Rightarrow> uint64_t" where
  "fnv_fnv64 seed str =
     foldl (\<lambda>h c. (h XOR word_of_nat (of_char c)) * fnv_prime) (fnv_offset_basis XOR seed) str"

text \<open>Modelled from the spec: a deterministic key derivation whose two keys cancel
  (one is 1, the other \<open>-1\<close>, since \<open>Seed - 82\<close> and \<open>Seed + 83\<close> differ in parity).\<close>

definition parity_key64 :: "uint64_t \<Rightarrow> uint64_t" where
  "parity_key64 s = (if even s then 1 else - 1)"

text \<open>The bitwise reinterpretation of a 64-bit pattern as a value of type \<open>T\<close>: its low
  \<open>bit_width T\<close> bits, unchanged.\<close>

definition reinterpret_as :: "arith_type \<Rightarrow> uint64_t \<Rightarrow> obj_repr" where
  "reinterpret_as T x = take_bit (bit_width T) x"


section \<open>Client expressions\<close>

text \<open>\<^verbatim>\<open>MakeXorConstant(value).GetCrypt()\<close> and \<^verbatim>\<open>MakeXorConstant(value).Get()\<close> at a
  use site: the accessors of the object the macro made, whose \<open>Seed\<close> is the macro's.\<close>

definition MakeXorConstant_GetCrypt ::
  "(uint64_t \<Rightarrow> uint64_t) \<Rightarrow> (uint64_t \<Rightarrow> string \<Rightarrow> uint64_t) \<Rightarrow> uint64_t \<Rightarrow> call_site
     \<Rightarrow> arith_type \<Rightarrow> obj_repr \<Rightarrow> obj_repr option" where
  "MakeXorConstant_GetCrypt key64 fnv64 UNIQUE_SEED64 site T v =
     (case MakeXorConstant key64 fnv64 UNIQUE_SEED64 site T v of
        Some (Inr x) \<Rightarrow> Some (fst (GetCrypt key64 T (fnv64 UNIQUE_SEED64 (FILE site)) x))
      | _ \<Rightarrow> None)"

definition MakeXorConstant_Get ::
  "(uint64_t \<Rightarrow> uint64_t) \<Rightarrow> (uint64_t \<Rightarrow> string \<Rightarrow> uint64_t) \<Rightarrow> uint64_t \<Rightarrow> call_site
     \<Rightarrow> arith_type \<Rightarrow> obj_repr \<Rightarrow> obj_repr option" where
  "MakeXorConstant_Get key64 fnv64 UNIQUE_SEED64 site T v =
     (case MakeXorConstant key64 fnv64 UNIQUE_SEED64 site T v of
        Some (Inr x) \<Rightarrow> Some (fst (Get T x))
      | _ \<Rightarrow> None)"

section \<open>Well-formed results of the conversions\<close>

text \<open>A floating-point pattern is finite when its exponent field is not all ones (the
  test of \<open>float_to_uint64\<close>). A conversion from an integer is defined when the value is in
  the range of the floating-point type, that is, when the nearest value is finite.\<close>

definition is_finite_float :: "arith_type \<Rightarrow> obj_repr \<Rightarrow> bool" where
  "is_finite_float T v =
     (unat (take_bit (exponent_bits T) (drop_bit (fraction_bits T) v))
        \<noteq> 2 ^ exponent_bits T - 1)"

subsection \<open>The number a floating-point pattern denotes\<close>

text \<open>
  The magnitude of a finite IEEE-754 pattern with biased exponent \<open>E\<close> and fraction \<open>M\<close>:
  \<open>M * 2^(1 - bias - mw)\<close> for a subnormal (\<open>E = 0\<close>) and
  \<open>(2^mw + M) * 2^(E - bias - mw)\<close> for a normal number, written as a quotient; the
  value carries the sign bit. Truncation towards zero is what the language prescribes for
  a conversion from floating point to an integer.
\<close>

definition float_magnitude :: "arith_type \<Rightarrow> obj_repr \<Rightarrow> real" where
  "float_magnitude T v =
     (let ew = exponent_bits T; mw = fraction_bits T;
          E = unat (take_bit ew (drop_bit mw v));
          M = unat (take_bit mw v);
          bias = exponent_bias ew
      in if E = 0 then real (M * 2) / real (2 ^ mw * 2 ^ bias)
         else real ((2 ^ mw + M) * 2 ^ E) / real (2 ^ mw * 2 ^ bias))"

definition float_value :: "arith_type \<Rightarrow> obj_repr \<Rightarrow> real" where
  "float_value T v =
     (if bit v (exponent_bits T + fraction_bits T) then - float_magnitude T v
      else float_magnitude T v)"

definition truncate_towards_zero :: "real \<Rightarrow> int" where
  "truncate_towards_zero x = (if x < 0 then \<lceil>x\<rceil> else \<lfloor>x\<rfloor>)"

section \<open>Basic facts\<close>

lemma lane0_ctor:
  "lane0 (m_encryptedData (XorConstant_ctor key64 v Seed)) =
     (v XOR XorKey key64 Seed) + AddKey key64 Seed"
  by (simp add: XorConstant_ctor_def EncryptData_def mm_set1_epi64x_def mm_xor_si128_def
      mm_add_epi64_def)

lemma ctor_eq:
  "XorConstant_ctor key64 v Seed =
     \<lparr>m_encryptedData = mm_set1_epi64x ((v XOR XorKey key64 Seed) + AddKey key64 Seed)\<rparr>"
  by (simp add: XorConstant_ctor_def EncryptData_def mm_set1_epi64x_def mm_xor_si128_def
      mm_add_epi64_def)

lemma DecryptData_eq:
  "DecryptData key64 Seed this =
     ((lane0 (m_encryptedData this) - AddKey key64 Seed) XOR XorKey key64 Seed, this)"
  by (simp add: DecryptData_def mm_set1_epi64x_def mm_xor_si128_def mm_sub_epi64_def
      mm_cvtsi128_si64_def)

lemma xor_cancel_right: "(v XOR k) XOR k = (v :: uint64_t)"
  by (simp add: xor.assoc)

lemma DecryptData_ctor:
  "DecryptData key64 Seed (XorConstant_ctor key64 v Seed) = (v, XorConstant_ctor key64 v Seed)"
  by (simp add: DecryptData_eq lane0_ctor xor_cancel_right)

lemma GetCrypt_eq:
  "GetCrypt key64 T Seed this =
     (static_cast_from_uint64 T
        ((lane0 (m_encryptedData this) - AddKey key64 Seed) XOR XorKey key64 Seed), this)"
  by (simp add: GetCrypt_def DecryptData_eq)

lemma GetCrypt_ctor:
  "fst (GetCrypt key64 T Seed (XorConstant_ctor key64 v Seed)) = static_cast_from_uint64 T v"
  by (simp add: GetCrypt_def DecryptData_ctor)

lemma transform_bij:
  "bij (\<lambda>v. mm_cvtsi128_si64 (m_encryptedData (XorConstant_ctor key64 v Seed)))"
proof (rule bij_betw_byWitness [where f' = "\<lambda>w. (w - AddKey key64 Seed) XOR XorKey key64 Seed"])
  show "\<forall>v\<in>UNIV. (mm_cvtsi128_si64 (m_encryptedData (XorConstant_ctor key64 v Seed))
          - AddKey key64 Seed) XOR XorKey key64 Seed = v"
    by (simp add: mm_cvtsi128_si64_def lane0_ctor xor_cancel_right)
  show "\<forall>w\<in>UNIV. mm_cvtsi128_si64 (m_encryptedData
          (XorConstant_ctor key64 ((w - AddKey key64 Seed) XOR XorKey key64 Seed) Seed)) = w"
    by (simp add: mm_cvtsi128_si64_def lane0_ctor xor_cancel_right)
qed simp_all

lemma integral_cast_round_trip:
  assumes "is_integral T" and "valid_repr T x"
  shows "\<exists>cv. static_cast_uint64 T x = Some cv \<and> static_cast_from_uint64 T cv = x"
  using assms
  by (cases T)
    (auto simp add: is_integral_def valid_repr_def static_cast_uint64_def
      static_cast_from_uint64_def take_bit_signed_take_bit)

lemma MakeXorConstant_GetCrypt_eq:
  "MakeXorConstant_GetCrypt key64 fnv64 useed site T v =
     map_option (static_cast_from_uint64 T) (static_cast_uint64 T v)"
  by (cases "static_cast_uint64 T v")
    (simp_all add: MakeXorConstant_GetCrypt_def MakeXorConstant_def MakeXorConstantImpl_def
      GetCrypt_ctor)

lemma bit_length_0: "bit_length 0 = 0"
  by (simp add: bit_length.simps)

lemma bit_length_pos: "0 < n \<Longrightarrow> bit_length n = Suc (bit_length (n div 2))"
  by (subst bit_length.simps) simp

text \<open>Rewrite rules that evaluate the conversions on numerals.\<close>

lemmas cast_eval = static_cast_from_uint64_def static_cast_from_int64_def static_cast_uint64_def
  float_of_nat_def float_of_int_def float_to_uint64_def exponent_bias_def bit_length_0
  bit_length_pos Let_def

lemmas fnv_eval = XorKey_def AddKey_def fnv_key64_def fnv_fnv64_def fnv_offset_basis_def
  fnv_prime_def

text \<open>\<open>fnv_prime\<close> is odd, hence a unit modulo 2^64: \<open>fnv_key64\<close> has no collisions.\<close>

lemma fnv_prime_inverse: "fnv_prime * 0xce965057aff6957b = 1"
  by (simp add: fnv_prime_def)

lemma fnv_key64_inj:
  assumes "fnv_key64 a = fnv_key64 b"
  shows "a = b"
proof -
  from assms have "((fnv_offset_basis XOR a) * fnv_prime) * 0xce965057aff6957b
      = ((fnv_offset_basis XOR b) * fnv_prime) * 0xce965057aff6957b"
    by (simp add: fnv_key64_def)
  then have "fnv_offset_basis XOR a = fnv_offset_basis XOR b"
    by (simp add: mult.assoc fnv_prime_inverse)
  then have "fnv_offset_basis XOR (fnv_offset_basis XOR a)
      = fnv_offset_basis XOR (fnv_offset_basis XOR b)"
    by simp
  then show ?thesis
    by (simp add: xor.assoc [symmetric])
qed

subsection \<open>Integers convert to finite floating-point values\<close>

lemma bit_length_upper: "n < 2 ^ bit_length n"
proof (induction n rule: bit_length.induct)
  case (1 n)
  show ?case
  proof (cases "n = 0")
    case True
    then show ?thesis by (simp add: bit_length_0)
  next
    case False
    with 1 have IH: "n div 2 < 2 ^ bit_length (n div 2)" by simp
    from False have "bit_length n = Suc (bit_length (n div 2))"
      by (simp add: bit_length_pos)
    with IH show ?thesis by simp
  qed
qed

lemma bit_length_lower: "0 < n \<Longrightarrow> 2 ^ (bit_length n - 1) \<le> n"
proof (induction n rule: bit_length.induct)
  case (1 n)
  then have eq: "bit_length n = Suc (bit_length (n div 2))"
    by (simp add: bit_length_pos)
  show ?case
  proof (cases "n div 2 = 0")
    case True
    with eq show ?thesis using 1(2) by (simp add: bit_length_0)
  next
    case False
    with 1 have IH: "2 ^ (bit_length (n div 2) - 1) \<le> n div 2" by simp
    from False have "bit_length (n div 2) = Suc (bit_length (n div 2) - 1)"
      by (simp add: bit_length_pos)
    then have "(2::nat) ^ bit_length (n div 2) = 2 * 2 ^ (bit_length (n div 2) - 1)"
      by (metis power_Suc)
    with IH eq show ?thesis by simp
  qed
qed

lemma bit_length_le:
  assumes "n < 2 ^ k"
  shows "bit_length n \<le> k"
proof (cases "n = 0")
  case True
  then show ?thesis by (simp add: bit_length_0)
next
  case False
  then have "0 < n" by simp
  then have "2 ^ (bit_length n - 1) \<le> n"
    by (rule bit_length_lower)
  then have "(2::nat) ^ (bit_length n - 1) < 2 ^ k"
    using assms by (rule le_less_trans)
  then have "bit_length n - 1 < k"
    by (simp only: power_strict_increasing_iff semiring_norm)
  then show ?thesis by simp
qed

text \<open>The result of \<open>float_of_nat\<close> is a biased exponent above a fraction that fits its
  field; the exponent exceeds the bias by at most the number of digits of the argument.\<close>

lemma float_of_nat_shape:
  "\<exists>E M. float_of_nat ew mw n = word_of_nat (E * 2 ^ mw + M) \<and> M < 2 ^ mw
     \<and> E \<le> bit_length n + exponent_bias ew"
proof (cases "n = 0")
  case True
  have "float_of_nat ew mw n = word_of_nat (0 * 2 ^ mw + 0)"
    using True by (simp add: float_of_nat_def)
  then show ?thesis by (metis zero_less_numeral zero_less_power zero_le)
next
  case False
  define k where "k = bit_length n - 1"
  have kn: "n < 2 ^ Suc k"
    using bit_length_upper [of n] False bit_length_pos [of n] by (simp add: k_def)
  have bl: "bit_length n = Suc k"
    using False bit_length_pos [of n] by (simp add: k_def)
  show ?thesis
  proof (cases "k \<le> mw")
    case True
    have "n * 2 ^ (mw - k) < 2 ^ Suc k * 2 ^ (mw - k)"
      using kn by simp
    also have "\<dots> = 2 ^ Suc mw"
      using True by (simp flip: power_add)
    finally have "n * 2 ^ (mw - k) - 2 ^ mw < 2 ^ mw" by simp
    moreover have "float_of_nat ew mw n
        = word_of_nat ((k + exponent_bias ew) * 2 ^ mw + (n * 2 ^ (mw - k) - 2 ^ mw))"
      using False True by (simp add: float_of_nat_def Let_def k_def)
    ultimately show ?thesis using bl by (intro exI conjI) (assumption, assumption, simp)
  next
    case gt: False
    define sh where "sh = k - mw"
    define q where "q = n div 2 ^ sh"
    define q' where "q' = (if 2 ^ (sh - 1) < n mod 2 ^ sh \<or> (n mod 2 ^ sh = 2 ^ (sh - 1) \<and> odd q)
      then q + 1 else q)"
    have "Suc k = Suc mw + sh"
      using gt by (simp add: sh_def)
    then have "(2::nat) ^ Suc k = 2 ^ Suc mw * 2 ^ sh"
      by (simp only: power_add)
    with kn have "n < 2 ^ Suc mw * 2 ^ sh" by simp
    then have "q < 2 ^ Suc mw"
      unfolding q_def by (simp add: less_mult_imp_div_less)
    then have q'le: "q' \<le> 2 ^ Suc mw" by (simp add: q'_def)
    have eq: "float_of_nat ew mw n =
        (if q' = 2 ^ (mw + 1) then word_of_nat ((k + 1 + exponent_bias ew) * 2 ^ mw)
         else word_of_nat ((k + exponent_bias ew) * 2 ^ mw + (q' - 2 ^ mw)))"
    proof -
      have a: "(n = 0) = False"
        using False by simp
      have b: "(bit_length n - 1 \<le> mw) = False"
        using gt by (simp add: k_def)
      show ?thesis
        unfolding float_of_nat_def Let_def k_def sh_def q_def q'_def a b if_False ..
    qed
    show ?thesis
    proof (cases "q' = 2 ^ (mw + 1)")
      case True
      with eq have "float_of_nat ew mw n = word_of_nat ((k + 1 + exponent_bias ew) * 2 ^ mw + 0)"
        by simp
      then show ?thesis using bl
        by (intro exI conjI) (assumption, simp, simp)
    next
      case ne: False
      with q'le have "q' - 2 ^ mw < 2 ^ mw" by simp
      moreover from eq ne have "float_of_nat ew mw n
          = word_of_nat ((k + exponent_bias ew) * 2 ^ mw + (q' - 2 ^ mw))" by simp
      ultimately show ?thesis using bl
        by (intro exI conjI) (assumption, assumption, simp)
    qed
  qed
qed

lemma exponent_field:
  assumes "M < 2 ^ mw" and "E < 2 ^ ew" and "ew + mw < 64"
  shows "unat (take_bit ew (drop_bit mw (word_of_nat (E * 2 ^ mw + M) :: 64 word))) = E"
proof -
  define W :: "64 word" where "W = word_of_nat (E * 2 ^ mw + M)"
  have "E * 2 ^ mw + M < (E + 1) * 2 ^ mw"
    using assms(1) by simp
  also have "\<dots> \<le> 2 ^ ew * 2 ^ mw"
    using assms(2) by (intro mult_right_mono) simp_all
  also have "\<dots> = 2 ^ (ew + mw)"
    by (simp add: power_add)
  also have "\<dots> < (2::nat) ^ 64"
    using assms(3) by (simp only: power_strict_increasing_iff semiring_norm)
  finally have lt: "E * 2 ^ mw + M < 2 ^ 64" .
  have "unat W = (E * 2 ^ mw + M) mod 2 ^ 64"
    unfolding W_def by (simp only: unat_of_nat) simp
  with lt have "unat W = E * 2 ^ mw + M"
    by (simp only: mod_less)
  moreover have "unat (drop_bit mw W) = unat W div 2 ^ mw"
    by (simp only: unat_drop_bit_eq drop_bit_nat_def)
  ultimately have "unat (drop_bit mw W) = E"
    using assms(1) by simp
  moreover have "unat (take_bit ew (drop_bit mw W)) = take_bit ew (unat (drop_bit mw W))"
    by (rule unsigned_take_bit_eq)
  ultimately have "unat (take_bit ew (drop_bit mw W)) = E"
    using assms(2) by (simp add: take_bit_nat_eq_self)
  then show ?thesis
    by (simp only: W_def)
qed

lemma sign_above_exponent:
  "take_bit ew (drop_bit mw (push_bit (ew + mw) 1 OR (x :: 64 word))) = take_bit ew (drop_bit mw x)"
  by (rule bit_eqI) (auto simp add: bit_simps)

lemma float_of_nat_finite:
  assumes "n \<le> 2 ^ 64" and "is_floating_point T"
  shows "is_finite_float T (float_of_nat (exponent_bits T) (fraction_bits T) n)"
proof -
  obtain E M where eq: "float_of_nat (exponent_bits T) (fraction_bits T) n
      = word_of_nat (E * 2 ^ fraction_bits T + M)"
    and M: "M < 2 ^ fraction_bits T"
    and E: "E \<le> bit_length n + exponent_bias (exponent_bits T)"
    using float_of_nat_shape by blast
  from assms(1) have "n < 2 ^ 65" by simp
  then have "bit_length n \<le> 65" by (rule bit_length_le)
  with E assms(2) have E': "E < 2 ^ exponent_bits T - 1"
    by (cases T) (simp_all add: exponent_bias_def)
  then have "E < 2 ^ exponent_bits T" by simp
  moreover from assms(2) have "exponent_bits T + fraction_bits T < 64"
    by (cases T) simp_all
  ultimately have "unat (take_bit (exponent_bits T) (drop_bit (fraction_bits T)
      (float_of_nat (exponent_bits T) (fraction_bits T) n))) = E"
    using M by (simp only: eq exponent_field)
  with E' show ?thesis
    by (simp add: is_finite_float_def)
qed

lemma float_of_int_finite:
  assumes "is_floating_point T"
  shows "is_finite_float T (float_of_int (exponent_bits T) (fraction_bits T) (sint (x :: uint64_t)))"
proof -
  have "- (2 ^ 63) \<le> sint x" and "sint x < 2 ^ 63"
    using sint_ge [of x] sint_lt [of x] by simp_all
  then have "nat (- sint x) \<le> 2 ^ 64" and "nat (sint x) \<le> 2 ^ 64"
    by simp_all
  then have "is_finite_float T (float_of_nat (exponent_bits T) (fraction_bits T) (nat (- sint x)))"
    and "is_finite_float T (float_of_nat (exponent_bits T) (fraction_bits T) (nat (sint x)))"
    using assms by (simp_all add: float_of_nat_finite)
  then have neg: "is_finite_float T (push_bit (exponent_bits T + fraction_bits T) 1
        OR float_of_nat (exponent_bits T) (fraction_bits T) (nat (- sint x)))"
    and pos: "is_finite_float T (float_of_nat (exponent_bits T) (fraction_bits T) (nat (sint x)))"
    by (simp_all only: is_finite_float_def sign_above_exponent simp_thms)
  show ?thesis
  proof (cases "sint x < 0")
    case True
    then have "float_of_int (exponent_bits T) (fraction_bits T) (sint x)
        = push_bit (exponent_bits T + fraction_bits T) 1
          OR float_of_nat (exponent_bits T) (fraction_bits T) (nat (- sint x))"
      by (simp only: float_of_int_def if_True)
    with neg show ?thesis by (simp only:)
  next
    case False
    then have "float_of_int (exponent_bits T) (fraction_bits T) (sint x)
        = float_of_nat (exponent_bits T) (fraction_bits T) (nat (sint x))"
      by (simp only: float_of_int_def if_False)
    with pos show ?thesis by (simp only:)
  qed
qed

lemma static_cast_finite:
  assumes "is_floating_point T"
  shows "is_finite_float T (static_cast_from_uint64 T x)"
    and "is_finite_float T (static_cast_from_int64 T x)"
proof -
  have "unat x < 2 ^ LENGTH(64)"
    by (rule unsigned_less)
  then have "unat x \<le> 2 ^ 64"
    by simp
  then have "is_finite_float T (float_of_nat (exponent_bits T) (fraction_bits T) (unat x))"
    using assms by (rule float_of_nat_finite)
  moreover from assms have "static_cast_from_uint64 T x
      = float_of_nat (exponent_bits T) (fraction_bits T) (unat x)"
    by (cases T) (simp_all add: static_cast_from_uint64_def)
  ultimately show "is_finite_float T (static_cast_from_uint64 T x)"
    by (simp only:)
  from assms have "static_cast_from_int64 T x
      = float_of_int (exponent_bits T) (fraction_bits T) (sint x)"
    by (cases T) (simp_all add: static_cast_from_int64_def)
  with float_of_int_finite [OF assms, of x]
  show "is_finite_float T (static_cast_from_int64 T x)"
    by (simp only:)
qed

subsection \<open>Floating point to integer is truncation; small integers convert exactly\<close>

lemma float_to_uint64_truncates:
  assumes "1 \<le> exponent_bias ew"
    and "float_to_uint64 ew mw v = Some cv"
  defines "E \<equiv> unat (take_bit ew (drop_bit mw v))"
    and "M \<equiv> unat (take_bit mw v)"
  shows "unat cv = ((if E = 0 then M * 2 else (2 ^ mw + M) * 2 ^ E) div (2 ^ mw * 2 ^ exponent_bias ew))"
proof -
  define bias where "bias = exponent_bias ew"
  have M: "M < 2 ^ mw"
    unfolding M_def by (simp add: unsigned_take_bit_eq)
  have bias1: "1 \<le> bias" using assms(1) by (simp add: bias_def)
  then have two_le: "(2::nat) \<le> 2 ^ bias"
    by (metis power_one_right power_increasing one_le_numeral)
  show ?thesis
  proof (cases "E < bias")
    case True
    then have cv: "cv = 0"
      using assms(2) by (simp add: float_to_uint64_def Let_def E_def bias_def split: if_splits)
    have "(if E = 0 then M * 2 else (2 ^ mw + M) * 2 ^ E) < 2 ^ mw * 2 ^ bias"
    proof (cases "E = 0")
      case True
      have "M * 2 < 2 ^ mw * 2" using M by simp
      also have "\<dots> \<le> 2 ^ mw * 2 ^ bias" using two_le by simp
      finally show ?thesis using True by simp
    next
      case False
      have "Suc E \<le> bias" using \<open>E < bias\<close> by simp
      then have "(2::nat) ^ Suc E \<le> 2 ^ bias"
        by (intro power_increasing) simp_all
      moreover have "(2 ^ mw + M) * 2 ^ E < (2 * 2 ^ mw) * 2 ^ E"
        using M by simp
      moreover have "(2 * 2 ^ mw) * 2 ^ E = 2 ^ mw * (2::nat) ^ Suc E" by simp
      ultimately have "(2 ^ mw + M) * 2 ^ E < 2 ^ mw * 2 ^ bias"
        by (metis (no_types, lifting) less_le_trans mult_le_mono2)
      then show ?thesis using False by simp
    qed
    then show ?thesis using cv by (simp add: bias_def)
  next
    case False
    define e where "e = E - bias"
    define magnitude where "magnitude = (if mw \<le> e then (2 ^ mw + M) * 2 ^ (e - mw)
                            else (2 ^ mw + M) div 2 ^ (mw - e))"
    from False bias1 have E0: "E \<noteq> 0" by simp
    have Ee: "E = e + bias" using False by (simp add: e_def)
    from assms(2) False have lt: "magnitude < 2 ^ 64" and cv: "cv = word_of_nat magnitude"
      by (simp_all add: float_to_uint64_def Let_def E_def [symmetric] M_def [symmetric]
          bias_def [symmetric] e_def magnitude_def split: if_splits)
    have "unat cv = magnitude mod 2 ^ 64"
      unfolding cv by (simp only: unat_of_nat) simp
    with lt have ucv: "unat cv = magnitude" by (simp only: mod_less)
    have "(2 ^ mw + M) * 2 ^ E div (2 ^ mw * 2 ^ bias) = (2 ^ mw + M) * 2 ^ e div 2 ^ mw"
      unfolding Ee by (simp add: power_add)
    also have "\<dots> = magnitude"
    proof (cases "mw \<le> e")
      case True
      then have "(2::nat) ^ e = 2 ^ (e - mw) * 2 ^ mw"
        by (simp flip: power_add)
      then have "(2 ^ mw + M) * 2 ^ e div 2 ^ mw = ((2 ^ mw + M) * 2 ^ (e - mw)) * 2 ^ mw div 2 ^ mw"
        by (simp only: mult.assoc)
      then show ?thesis using True by (simp add: magnitude_def)
    next
      case False
      then have "(2::nat) ^ mw = 2 ^ e * 2 ^ (mw - e)"
        by (simp flip: power_add)
      then have "(2 ^ mw + M) * 2 ^ e div 2 ^ mw = (2 ^ e * (2 ^ mw + M)) div (2 ^ e * 2 ^ (mw - e))"
        by (simp only: mult.commute)
      also have "\<dots> = (2 ^ mw + M) div 2 ^ (mw - e)"
        by (rule div_mult_mult1) simp
      finally show ?thesis using False by (simp add: magnitude_def)
    qed
    finally show ?thesis using E0 ucv by (simp add: bias_def)
  qed
qed

lemma floor_float_magnitude:
  assumes "is_floating_point T" and "static_cast_uint64 T v = Some cv"
  shows "\<lfloor>float_magnitude T v\<rfloor> = int (unat cv)"
proof -
  from assms have f: "float_to_uint64 (exponent_bits T) (fraction_bits T) v = Some cv"
    by (cases T) (simp_all add: static_cast_uint64_def)
  from assms(1) have "1 \<le> exponent_bias (exponent_bits T)"
    by (cases T) (simp_all add: exponent_bias_def)
  from float_to_uint64_truncates [OF this f]
  show ?thesis
    by (simp only: float_magnitude_def Let_def floor_divide_of_nat_eq if_distrib [of floor]
        if_distrib [of "\<lambda>n. n div _"] if_distrib [of int] if_distrib [of "\<lambda>x. x / _"] if_distrib [of real])
qed

lemma negative_truncates_to_zero:
  assumes "is_floating_point T" and "static_cast_uint64 T v = Some cv"
    and "bit v (exponent_bits T + fraction_bits T)"
  shows "cv = 0"
proof -
  from assms have f: "float_to_uint64 (exponent_bits T) (fraction_bits T) v = Some cv"
    by (cases T) (simp_all add: static_cast_uint64_def)
  with assms(3) show ?thesis
    by (simp add: float_to_uint64_def Let_def split: if_splits)
qed

lemma float_magnitude_nonneg: "0 \<le> float_magnitude T v"
proof -
  have r: "0 \<le> real a / real b" for a b
    by simp
  show ?thesis
    by (cases "unat (take_bit (exponent_bits T) (drop_bit (fraction_bits T) v)) = 0")
      (simp_all only: float_magnitude_def Let_def if_True if_False simp_thms r)
qed

lemma static_cast_uint64_truncation:
  assumes "is_floating_point T" and "static_cast_uint64 T v = Some cv"
  shows "int (unat cv) = truncate_towards_zero (float_value T v)"
proof (cases "bit v (exponent_bits T + fraction_bits T)")
  case False
  then show ?thesis
    using floor_float_magnitude [OF assms] float_magnitude_nonneg [of T v]
    by (simp add: float_value_def truncate_towards_zero_def)
next
  case True
  with assms have "cv = 0" by (rule negative_truncates_to_zero)
  with floor_float_magnitude [OF assms] have "\<lfloor>float_magnitude T v\<rfloor> = 0" by simp
  then show ?thesis
    using True \<open>cv = 0\<close> float_magnitude_nonneg [of T v]
    by (simp add: float_value_def truncate_towards_zero_def ceiling_minus)
qed

lemma fraction_field:
  assumes "M < 2 ^ mw" and "E < 2 ^ ew" and "ew + mw < 64"
  shows "unat (take_bit mw (word_of_nat (E * 2 ^ mw + M) :: 64 word)) = M"
proof -
  define W :: "64 word" where "W = word_of_nat (E * 2 ^ mw + M)"
  have "E * 2 ^ mw + M < (E + 1) * 2 ^ mw"
    using assms(1) by simp
  also have "\<dots> \<le> 2 ^ ew * 2 ^ mw"
    using assms(2) by (intro mult_right_mono) simp_all
  also have "\<dots> = 2 ^ (ew + mw)"
    by (simp add: power_add)
  also have "\<dots> < (2::nat) ^ 64"
    using assms(3) by (simp only: power_strict_increasing_iff semiring_norm)
  finally have lt: "E * 2 ^ mw + M < 2 ^ 64" .
  have "unat W = (E * 2 ^ mw + M) mod 2 ^ 64"
    unfolding W_def by (simp only: unat_of_nat) simp
  with lt have "unat W = E * 2 ^ mw + M"
    by (simp only: mod_less)
  moreover have "unat (take_bit mw W) = take_bit mw (unat W)"
    by (rule unsigned_take_bit_eq)
  ultimately have "unat (take_bit mw W) = M"
    using assms(1) by (simp add: take_bit_eq_mod)
  then show ?thesis
    by (simp only: W_def)
qed

lemma float_of_nat_exact:
  assumes "is_floating_point T" and "n < 2 ^ Suc (fraction_bits T)"
  shows "float_magnitude T (float_of_nat (exponent_bits T) (fraction_bits T) n) = real n"
proof (cases "n = 0")
  case True
  then show ?thesis
    by (simp add: float_of_nat_def float_magnitude_def)
next
  case False
  define ew where "ew = exponent_bits T"
  define mw where "mw = fraction_bits T"
  define bias where "bias = exponent_bias ew"
  define k where "k = bit_length n - 1"
  define M where "M = n * 2 ^ (mw - k) - 2 ^ mw"
  have bl: "bit_length n = Suc k"
    using False bit_length_pos [of n] by (simp add: k_def)
  have "bit_length n \<le> Suc mw"
    using assms(2) by (intro bit_length_le) (simp add: mw_def)
  with bl have kmw: "k \<le> mw" by simp
  have lo: "2 ^ k \<le> n"
    using bit_length_lower [of n] False by (simp add: k_def)
  have hi: "n < 2 ^ Suc k"
    using bit_length_upper [of n] bl by simp
  have pw: "(2::nat) ^ mw = 2 ^ k * 2 ^ (mw - k)"
    using kmw by (simp flip: power_add)
  have ge: "2 ^ mw \<le> n * 2 ^ (mw - k)"
    unfolding pw using lo by simp
  have "n * 2 ^ (mw - k) < 2 ^ Suc k * 2 ^ (mw - k)"
    using hi by simp
  also have "\<dots> = 2 * 2 ^ mw"
    unfolding pw by simp
  finally have M: "M < 2 ^ mw"
    by (simp add: M_def)
  have sig: "2 ^ mw + M = n * 2 ^ (mw - k)"
    using ge by (simp add: M_def)
  have eq: "float_of_nat ew mw n = word_of_nat ((k + bias) * 2 ^ mw + M)"
    using False kmw by (simp only: float_of_nat_def Let_def k_def [symmetric] bias_def [symmetric]
        M_def [symmetric] if_False if_True)
  have bias1: "1 \<le> bias" and E: "k + bias < 2 ^ ew" and len: "ew + mw < 64"
    using assms(1) kmw by (cases T; simp add: bias_def ew_def mw_def exponent_bias_def)+
  have Ef: "unat (take_bit ew (drop_bit mw (float_of_nat ew mw n))) = k + bias"
    unfolding eq using M E len by (rule exponent_field)
  have Mf: "unat (take_bit mw (float_of_nat ew mw n)) = M"
    unfolding eq using M E len by (rule fraction_field)
  have "(2 ^ mw + M) * 2 ^ (k + bias) = (n * 2 ^ (mw - k)) * (2 ^ k * 2 ^ bias)"
    by (simp only: sig power_add)
  also have "\<dots> = n * ((2 ^ k * 2 ^ (mw - k)) * 2 ^ bias)"
    by (simp only: mult_ac)
  finally have numer: "(2 ^ mw + M) * 2 ^ (k + bias) = n * (2 ^ mw * 2 ^ bias)"
    by (simp only: pw [symmetric])
  have "float_magnitude T (float_of_nat ew mw n)
      = real ((2 ^ mw + M) * 2 ^ (k + bias)) / real (2 ^ mw * 2 ^ bias)"
    using bias1 by (simp only: float_magnitude_def Let_def ew_def [symmetric] mw_def [symmetric]
        bias_def [symmetric] Ef Mf) simp
  also have "\<dots> = real (n * (2 ^ mw * 2 ^ bias)) / real (2 ^ mw * 2 ^ bias)"
    by (simp only: numer)
  also have "\<dots> = real n"
    by simp
  finally show ?thesis
    by (simp only: ew_def mw_def)
qed

subsection \<open>Where the conversion from floating point is undefined\<close>

lemma below_bias_small:
  assumes "M < 2 ^ mw" and "E < bias"
  shows "(if E = 0 then M * 2 else (2 ^ mw + M) * 2 ^ E) < 2 ^ mw * (2::nat) ^ bias"
proof (cases "E = 0")
  case True
  from assms(2) have "1 \<le> bias" by simp
  then have two_le: "(2::nat) \<le> 2 ^ bias"
    by (metis power_one_right power_increasing one_le_numeral)
  have "M * 2 < 2 ^ mw * 2" using assms(1) by simp
  also have "\<dots> \<le> 2 ^ mw * 2 ^ bias" using two_le by simp
  finally show ?thesis using True by simp
next
  case False
  have "Suc E \<le> bias" using assms(2) by simp
  then have "(2::nat) ^ Suc E \<le> 2 ^ bias"
    by (intro power_increasing) simp_all
  then have "2 ^ mw * (2::nat) ^ Suc E \<le> 2 ^ mw * 2 ^ bias"
    by (rule mult_le_mono2)
  moreover have "(2 ^ mw + M) * 2 ^ E < 2 ^ mw * (2::nat) ^ Suc E"
    using assms(1) by simp
  ultimately have "(2 ^ mw + M) * 2 ^ E < 2 ^ mw * 2 ^ bias"
    by (rule less_le_trans [rotated])
  then show ?thesis using False by simp
qed

lemma at_least_bias_quotient:
  assumes "bias \<le> E"
  shows "(2 ^ mw + M) * 2 ^ E div (2 ^ mw * 2 ^ bias)
      = (if mw \<le> E - bias then (2 ^ mw + M) * 2 ^ (E - bias - mw)
         else (2 ^ mw + M) div (2::nat) ^ (mw - (E - bias)))"
    and "2 ^ mw * (2::nat) ^ bias \<le> (2 ^ mw + M) * 2 ^ E"
proof -
  define e where "e = E - bias"
  have Ee: "E = e + bias" using assms by (simp add: e_def)
  have "(2 ^ mw + M) * 2 ^ E div (2 ^ mw * 2 ^ bias) = (2 ^ mw + M) * 2 ^ e div 2 ^ mw"
    unfolding Ee by (simp add: power_add)
  also have "\<dots> = (if mw \<le> e then (2 ^ mw + M) * 2 ^ (e - mw)
         else (2 ^ mw + M) div (2::nat) ^ (mw - e))"
  proof (cases "mw \<le> e")
    case True
    then have "(2::nat) ^ e = 2 ^ (e - mw) * 2 ^ mw"
      by (simp flip: power_add)
    then have "(2 ^ mw + M) * 2 ^ e div 2 ^ mw = ((2 ^ mw + M) * 2 ^ (e - mw)) * 2 ^ mw div 2 ^ mw"
      by (simp only: mult.assoc)
    then show ?thesis using True by simp
  next
    case False
    then have "(2::nat) ^ mw = 2 ^ e * 2 ^ (mw - e)"
      by (simp flip: power_add)
    then have "(2 ^ mw + M) * 2 ^ e div 2 ^ mw = (2 ^ e * (2 ^ mw + M)) div (2 ^ e * 2 ^ (mw - e))"
      by (simp only: mult.commute)
    also have "\<dots> = (2 ^ mw + M) div 2 ^ (mw - e)"
      by (rule div_mult_mult1) simp
    finally show ?thesis using False by simp
  qed
  finally show "(2 ^ mw + M) * 2 ^ E div (2 ^ mw * 2 ^ bias)
      = (if mw \<le> E - bias then (2 ^ mw + M) * 2 ^ (E - bias - mw)
         else (2 ^ mw + M) div (2::nat) ^ (mw - (E - bias)))"
    by (simp only: e_def)
  have "(2::nat) ^ bias \<le> 2 ^ E"
    using assms by (intro power_increasing) simp_all
  then have "2 ^ mw * (2::nat) ^ bias \<le> 2 ^ mw * 2 ^ E"
    by (rule mult_le_mono2)
  also have "\<dots> \<le> (2 ^ mw + M) * 2 ^ E"
    by simp
  finally show "2 ^ mw * (2::nat) ^ bias \<le> (2 ^ mw + M) * 2 ^ E" .
qed

lemma float_to_uint64_None_iff:
  fixes ew mw :: nat and v :: obj_repr
  assumes "1 \<le> exponent_bias ew"
  defines "E \<equiv> unat (take_bit ew (drop_bit mw v))"
    and "M \<equiv> unat (take_bit mw v)"
  defines "num \<equiv> (if E = 0 then M * 2 else (2 ^ mw + M) * 2 ^ E)"
    and "den \<equiv> 2 ^ mw * (2::nat) ^ exponent_bias ew"
  shows "(float_to_uint64 ew mw v = None)
      = (E = 2 ^ ew - 1 \<or> (den \<le> num \<and> (bit v (ew + mw) \<or> 2 ^ 64 \<le> num div den)))"
proof (cases "E = 2 ^ ew - 1")
  case True
  then show ?thesis
    by (simp add: float_to_uint64_def Let_def E_def)
next
  case fin: False
  have M: "M < 2 ^ mw"
    unfolding M_def by (simp add: unsigned_take_bit_eq)
  show ?thesis
  proof (cases "E < exponent_bias ew")
    case True
    with M have "num < den"
      unfolding num_def den_def by (rule below_bias_small)
    moreover from fin True have "float_to_uint64 ew mw v = Some 0"
      by (simp add: float_to_uint64_def Let_def E_def)
    ultimately show ?thesis using fin by simp
  next
    case False
    then have ge: "exponent_bias ew \<le> E" by simp
    with assms(1) have E0: "E \<noteq> 0" by simp
    define magnitude where "magnitude =
      (if mw \<le> E - exponent_bias ew then (2 ^ mw + M) * 2 ^ (E - exponent_bias ew - mw)
       else (2 ^ mw + M) div (2::nat) ^ (mw - (E - exponent_bias ew)))"
    have q: "num div den = magnitude" and le: "den \<le> num"
      using at_least_bias_quotient [OF ge, of mw M] E0
      by (simp_all add: num_def den_def magnitude_def)
    have "(float_to_uint64 ew mw v = None) = (bit v (ew + mw) \<or> 2 ^ 64 \<le> magnitude)"
      using fin False
      by (simp add: float_to_uint64_def Let_def E_def [symmetric] M_def [symmetric] magnitude_def)
    with q le fin show ?thesis by simp
  qed
qed

lemma quotient_facts:
  fixes num den :: nat
  assumes "0 < den"
  shows "(1 \<le> real num / real den) = (den \<le> num)"
    and "(2 ^ 64 \<le> real num / real den) = (2 ^ 64 \<le> num div den)"
    and "0 \<le> real num / real den"
proof -
  from assms have pos: "0 < real den" by simp
  have "(1 \<le> real num / real den) = (1 * real den \<le> real num)"
    using pos by (rule pos_le_divide_eq)
  then show "(1 \<le> real num / real den) = (den \<le> num)" by simp
  have "(2 ^ 64 \<le> real num / real den) = (2 ^ 64 * real den \<le> real num)"
    using pos by (rule pos_le_divide_eq)
  also have "2 ^ 64 * real den = real (2 ^ 64 * den)" by simp
  also have "(real (2 ^ 64 * den) \<le> real num) = (2 ^ 64 * den \<le> num)"
    by (rule of_nat_le_iff)
  also have "\<dots> = (2 ^ 64 \<le> num div den)"
    using assms by (rule less_eq_div_iff_mult_less_eq [symmetric])
  finally show "(2 ^ 64 \<le> real num / real den) = (2 ^ 64 \<le> num div den)" .
  show "0 \<le> real num / real den" by simp
qed

lemma static_cast_uint64_undefined_iff:
  assumes "is_floating_point T"
  shows "(static_cast_uint64 T v = None)
      = (float_value T v \<le> - 1 \<or> 2 ^ 64 \<le> float_value T v \<or> \<not> is_finite_float T v)"
proof -
  define ew where "ew = exponent_bits T"
  define mw where "mw = fraction_bits T"
  define E where "E = unat (take_bit ew (drop_bit mw v))"
  define M where "M = unat (take_bit mw v)"
  define num where "num = (if E = 0 then M * 2 else (2 ^ mw + M) * 2 ^ E)"
  define den where "den = 2 ^ mw * (2::nat) ^ exponent_bias ew"
  define mag where "mag = real num / real den"
  have bias1: "1 \<le> exponent_bias ew"
    using assms by (cases T) (simp_all add: ew_def exponent_bias_def)
  have cast: "static_cast_uint64 T v = float_to_uint64 ew mw v"
    using assms by (cases T) (simp_all add: static_cast_uint64_def ew_def mw_def)
  have den: "0 < den" by (simp add: den_def)
  have fm: "float_magnitude T v = mag"
    by (cases "E = 0")
      (simp_all only: float_magnitude_def Let_def ew_def [symmetric] mw_def [symmetric]
        E_def [symmetric] M_def [symmetric] num_def den_def mag_def if_True if_False simp_thms)
  have fin: "is_finite_float T v = (E \<noteq> 2 ^ ew - 1)"
    by (simp only: is_finite_float_def ew_def mw_def E_def)
  have none: "(static_cast_uint64 T v = None)
      = (E = 2 ^ ew - 1 \<or> (den \<le> num \<and> (bit v (ew + mw) \<or> 2 ^ 64 \<le> num div den)))"
    unfolding cast E_def M_def num_def den_def
    by (simp only: float_to_uint64_None_iff [OF bias1])
  have one: "(1 \<le> mag) = (den \<le> num)" and big: "(2 ^ 64 \<le> mag) = (2 ^ 64 \<le> num div den)"
    and nonneg: "0 \<le> mag"
    unfolding mag_def using quotient_facts [OF den, of num] by simp_all
  have big_one: "2 ^ 64 \<le> mag \<Longrightarrow> 1 \<le> mag"
    by simp
  show ?thesis
  proof (cases "bit v (ew + mw)")
    case True
    then have "float_value T v = - mag"
      by (simp add: float_value_def fm ew_def mw_def)
    with True nonneg show ?thesis
      using one by (auto simp add: none fin)
  next
    case False
    then have "float_value T v = mag"
      by (simp add: float_value_def fm ew_def mw_def)
    with False nonneg show ?thesis
      using one big big_one by (auto simp add: none fin)
  qed
qed

lemma integral_cast_defined:
  assumes "is_integral T"
  shows "static_cast_uint64 T v \<noteq> None"
  using assms by (cases T) (simp_all add: is_integral_def static_cast_uint64_def)

lemma MakeXorConstant_None_iff:
  "(MakeXorConstant key64 fnv64 useed site T v = None) = (static_cast_uint64 T v = None)"
  by (simp add: MakeXorConstant_def split: option.split)

subsection \<open>Accessor calls\<close>

lemma call_unchanged: "\<exists>r. call key64 T Seed c this = (r, this)"
  by (cases c) (simp_all add: Get_def GetCrypt_eq)

section \<open>The claims\<close>

text \<open>
  C1 (round-trip law), as amended. For every 64-bit value \<open>v\<close> an instance is constructed
  from (the template argument \<^verbatim>\<open>ConstantValue\<close>), every key derivation and every seed,
  hence every pair of derived keys: decrypting the stored bits gives back \<open>v\<close>, bit for
  bit, that is \<open>(((v XOR xorKey) + addKey) - addKey) XOR xorKey = v\<close> modulo 2^64, and the
  transform from \<open>v\<close> to the stored 64 bits is a bijection on 64-bit words.
  \<^verbatim>\<open>GetCrypt\<close> returns that \<open>v\<close> converted to \<open>T\<close>; for an integral \<open>T\<close> other than
  \<^verbatim>\<open>bool\<close> these are the low \<open>bit_width T\<close> bits of \<open>v\<close>. For a value \<open>x\<close> of an
  integral type \<open>T\<close> of any width, \<^verbatim>\<open>MakeXorConstant(x).GetCrypt()\<close> is \<open>x\<close>, bit for bit.
\<close>

theorem round_trip_law:
  "fst (DecryptData key64 Seed (XorConstant_ctor key64 v Seed)) = v
   \<and> fst (GetCrypt key64 T Seed (XorConstant_ctor key64 v Seed)) = static_cast_from_uint64 T v
   \<and> bij (\<lambda>w. mm_cvtsi128_si64 (m_encryptedData (XorConstant_ctor key64 w Seed)))
   \<and> (is_integral T \<and> T \<noteq> T_bool
        \<longrightarrow> fst (GetCrypt key64 T Seed (XorConstant_ctor key64 v Seed))
            = take_bit (bit_width T) v)
   \<and> (is_integral T \<and> valid_repr T x
        \<longrightarrow> MakeXorConstant_GetCrypt key64 fnv64 UNIQUE_SEED64 site T x = Some x)"
proof (intro conjI impI)
  show "fst (DecryptData key64 Seed (XorConstant_ctor key64 v Seed)) = v"
    by (simp add: DecryptData_ctor)
  show "fst (GetCrypt key64 T Seed (XorConstant_ctor key64 v Seed)) = static_cast_from_uint64 T v"
    by (rule GetCrypt_ctor)
  show "bij (\<lambda>w. mm_cvtsi128_si64 (m_encryptedData (XorConstant_ctor key64 w Seed)))"
    by (rule transform_bij)
next
  assume "is_integral T \<and> T \<noteq> T_bool"
  then show "fst (GetCrypt key64 T Seed (XorConstant_ctor key64 v Seed)) = take_bit (bit_width T) v"
    by (simp add: GetCrypt_ctor static_cast_from_uint64_def is_integral_def)
next
  assume "is_integral T \<and> valid_repr T x"
  then obtain cv where "static_cast_uint64 T x = Some cv" and "static_cast_from_uint64 T cv = x"
    using integral_cast_round_trip by blast
  then show "MakeXorConstant_GetCrypt key64 fnv64 UNIQUE_SEED64 site T x = Some x"
    by (simp add: MakeXorConstant_GetCrypt_eq)
qed

theorem round_trip_law_witness:
  "is_integral T_int32 \<and> T_int32 \<noteq> T_bool \<and> valid_repr T_int32 42
   \<and> fst (GetCrypt fnv_key64 T_int32 (fnv_fnv64 0x1111 ''main.cpp'')
        (XorConstant_ctor fnv_key64 42 (fnv_fnv64 0x1111 ''main.cpp''))) = 42
   \<and> MakeXorConstant_GetCrypt fnv_key64 fnv_fnv64 0x1111 \<lparr>FILE = ''main.cpp'', LINE = 12\<rparr>
        T_int32 42 = Some 42"
  using round_trip_law [of fnv_key64 "fnv_fnv64 0x1111 ''main.cpp''" 42 T_int32 42 fnv_fnv64
      "0x1111" "\<lparr>FILE = ''main.cpp'', LINE = 12\<rparr>"]
  by (simp add: is_integral_def valid_repr_def static_cast_from_uint64_def)

text \<open>
  C1 as stated fails: \<^verbatim>\<open>GetCrypt\<close> returns the constant converted to \<open>T\<close>, which need
  not be the constant. The instance of \<^verbatim>\<open>XorConstant<int, 0x10000002A, 0x1111>\<close> returns
  0x2A, and \<^verbatim>\<open>MakeXorConstant(2.5).GetCrypt()\<close> is 2.0 (0x4000000000000000), not the
  \<^verbatim>\<open>double\<close> 2.5 (0x4004000000000000).
\<close>

theorem round_trip_counterexample:
  "fst (GetCrypt fnv_key64 T_int32 0x1111 (XorConstant_ctor fnv_key64 0x10000002A 0x1111)) = 0x2A
   \<and> fst (GetCrypt fnv_key64 T_int32 0x1111 (XorConstant_ctor fnv_key64 0x10000002A 0x1111))
       \<noteq> 0x10000002A
   \<and> MakeXorConstant_GetCrypt fnv_key64 fnv_fnv64 0x1111 \<lparr>FILE = ''main.cpp'', LINE = 5\<rparr>
         T_double 0x4004000000000000 = Some 0x4000000000000000"
  by (simp add: GetCrypt_ctor MakeXorConstant_GetCrypt_eq cast_eval)

text \<open>
  C2 (construction effect), as amended. For every value, key derivation and seed,
  construction stores \<open>(value XOR xorKey) + addKey\<close>, computed modulo 2^64, in both 64-bit
  halves of the 128-bit cell, where \<open>xorKey = key64 (Seed - 82)\<close> and
  \<open>addKey = key64 (Seed + 83)\<close>: the marker subtracted from the seed and the marker added
  to it are the header's line numbers of the two key declarations and differ by one.
  The accessors read the low half only: whatever the high half holds, \<^verbatim>\<open>Get\<close> and
  \<^verbatim>\<open>GetCrypt\<close> return the same.
\<close>

theorem construction_effect:
  "m_encryptedData (XorConstant_ctor key64 v Seed)
     = mm_set1_epi64x ((v XOR key64 (Seed - 82)) + key64 (Seed + 83))
   \<and> lane0 (m_encryptedData (XorConstant_ctor key64 v Seed))
     = lane1 (m_encryptedData (XorConstant_ctor key64 v Seed))
   \<and> XorKey key64 Seed = key64 (Seed - 82)
   \<and> AddKey key64 Seed = key64 (Seed + 83)
   \<and> fst (Get T (this\<lparr>m_encryptedData := (m_encryptedData this)\<lparr>lane1 := h\<rparr>\<rparr>))
     = fst (Get T this)
   \<and> fst (GetCrypt key64 T Seed (this\<lparr>m_encryptedData := (m_encryptedData this)\<lparr>lane1 := h\<rparr>\<rparr>))
     = fst (GetCrypt key64 T Seed this)"
  by (simp add: ctor_eq XorKey_def AddKey_def mm_set1_epi64x_def Get_def GetCrypt_eq
      mm_cvtsi128_si64_def)

text \<open>
  C2 as stated, with one line marker in both keys, fails: with the collision-free
  \<open>fnv_key64\<close> and seed 0x1111 no single marker gives both keys of the class.
\<close>

theorem single_line_marker_counterexample:
  "\<not> (\<exists>lineMarker. XorKey fnv_key64 0x1111 = fnv_key64 (0x1111 - lineMarker)
        \<and> AddKey fnv_key64 0x1111 = fnv_key64 (0x1111 + lineMarker))"
proof
  assume "\<exists>lineMarker. XorKey fnv_key64 0x1111 = fnv_key64 (0x1111 - lineMarker)
        \<and> AddKey fnv_key64 0x1111 = fnv_key64 (0x1111 + lineMarker)"
  then obtain L :: uint64_t
    where a: "fnv_key64 (0x1111 - 82) = fnv_key64 (0x1111 - L)"
      and b: "fnv_key64 (0x1111 + 83) = fnv_key64 (0x1111 + L)"
    unfolding XorKey_def AddKey_def by blast
  from a have "(0x1111 :: uint64_t) - 82 = 0x1111 - L"
    by (rule fnv_key64_inj)
  then have "L = 82" by simp
  moreover from b have "(0x1111 :: uint64_t) + 83 = 0x1111 + L"
    by (rule fnv_key64_inj)
  then have "L = 83" by simp
  ultimately show False by simp
qed

text \<open>
  C3 (decrypting accessor). For every instance, \<^verbatim>\<open>GetCrypt\<close> returns
  \<open>(stored - addKey) XOR xorKey\<close>, the 64-bit subtraction first and the exclusive-or
  second, converted to \<open>T\<close>, where \<open>stored\<close> is the low 64 bits of the cell. The result is
  a function of these stored bits and the two keys alone, the function is total, and the
  object is returned as it was.
\<close>

theorem decrypting_accessor:
  "GetCrypt key64 T Seed this =
     (static_cast_from_uint64 T
        ((mm_cvtsi128_si64 (m_encryptedData this) - AddKey key64 Seed) XOR XorKey key64 Seed),
      this)"
  by (simp add: GetCrypt_eq mm_cvtsi128_si64_def)

text \<open>
  C4 (key diversification), as amended. The line marker is a constant of the header (82
  in the XOR key, 83 in the additive key), the same for every instance, and the macro
  passes the file of the use but not its line. Two uses of the macro in one file with the
  same value and the same build seed give the same seed, the same key pair and the same
  stored bits, on whatever lines they stand: the keys vary with the seed only.
\<close>

theorem keys_depend_on_seed_only:
  "(FILE s1 = FILE s2
      \<longrightarrow> MakeXorConstant key64 fnv64 UNIQUE_SEED64 s1 T v
          = MakeXorConstant key64 fnv64 UNIQUE_SEED64 s2 T v)
   \<and> MakeXorConstant key64 fnv64 UNIQUE_SEED64 (site\<lparr>LINE := l\<rparr>) T v
       = MakeXorConstant key64 fnv64 UNIQUE_SEED64 site T v
   \<and> XorKey key64 Seed = key64 (Seed - 82)
   \<and> AddKey key64 Seed = key64 (Seed + 83)"
  by (simp add: MakeXorConstant_def XorKey_def AddKey_def split: option.split)

theorem keys_depend_on_seed_only_witness:
  "FILE \<lparr>FILE = ''a.cpp'', LINE = 1\<rparr> = FILE \<lparr>FILE = ''a.cpp'', LINE = 2\<rparr>
   \<and> MakeXorConstant fnv_key64 fnv_fnv64 7 \<lparr>FILE = ''a.cpp'', LINE = 1\<rparr> T_uint8 9
     = MakeXorConstant fnv_key64 fnv_fnv64 7 \<lparr>FILE = ''a.cpp'', LINE = 2\<rparr> T_uint8 9"
  using keys_depend_on_seed_only [of "\<lparr>FILE = ''a.cpp'', LINE = 1\<rparr>"
      "\<lparr>FILE = ''a.cpp'', LINE = 2\<rparr>" fnv_key64 fnv_fnv64 7 T_uint8 9]
  by simp

text \<open>
  C4 as stated fails: the constant 42 of type \<^verbatim>\<open>int\<close>, declared through the macro
  on lines 10 and 20 of one file with the same build seed, is stored as the same bits,
  although \<open>fnv_key64\<close> has no collisions.
\<close>

theorem same_seed_different_lines_counterexample:
  "MakeXorConstant fnv_key64 fnv_fnv64 0x1111 \<lparr>FILE = ''main.cpp'', LINE = 10\<rparr> T_int32 42
     = MakeXorConstant fnv_key64 fnv_fnv64 0x1111 \<lparr>FILE = ''main.cpp'', LINE = 20\<rparr> T_int32 42
   \<and> MakeXorConstant fnv_key64 fnv_fnv64 0x1111 \<lparr>FILE = ''main.cpp'', LINE = 10\<rparr> T_int32 42
     = Some (Inr \<lparr>m_encryptedData =
         \<lparr>lane0 = 3564192441309565557, lane1 = 3564192441309565557\<rparr>\<rparr>)"
  by (simp add: MakeXorConstant_def MakeXorConstantImpl_def static_cast_uint64_def ctor_eq
      mm_set1_epi64x_def fnv_eval)

text \<open>
  C5 (zero-value boundary), as amended. Encrypting the constant 0 stores
  \<open>xorKey + addKey\<close> modulo 2^64; the stored pattern is nonzero for every key pair whose
  sum is nonzero modulo 2^64.
\<close>

theorem zero_value_boundary:
  "lane0 (m_encryptedData (XorConstant_ctor key64 0 Seed))
     = XorKey key64 Seed + AddKey key64 Seed
   \<and> (XorKey key64 Seed + AddKey key64 Seed \<noteq> 0
        \<longrightarrow> lane0 (m_encryptedData (XorConstant_ctor key64 0 Seed)) \<noteq> 0)"
  by (simp add: lane0_ctor)

theorem zero_value_boundary_witness:
  "XorKey fnv_key64 0x1111 + AddKey fnv_key64 0x1111 \<noteq> 0
   \<and> lane0 (m_encryptedData (XorConstant_ctor fnv_key64 0 0x1111)) \<noteq> 0"
  using zero_value_boundary [of fnv_key64 "0x1111"]
  by (simp add: fnv_eval)

text \<open>
  C5 as stated fails when the keys cancel: with xorKey = 2^64 - 1 and addKey = 1,
  both nonzero, the constant 0 is stored as 0.
\<close>

theorem cancelling_keys_counterexample:
  "XorKey parity_key64 0x1111 = - 1
   \<and> AddKey parity_key64 0x1111 = 1
   \<and> lane0 (m_encryptedData (XorConstant_ctor parity_key64 0 0x1111)) = 0"
  by (simp add: lane0_ctor XorKey_def AddKey_def parity_key64_def)

text \<open>
  C6 (floating-point round trip). The code does not do what the claim says: for every
  key derivation, seed and use site, \<^verbatim>\<open>MakeXorConstant(3.14).GetCrypt()\<close> is 3.0
  (0x4008000000000000), not the \<^verbatim>\<open>double\<close> 3.14 (0x40091EB851EB851F).
\<close>

theorem floating_point_constant_truncated:
  "MakeXorConstant_GetCrypt key64 fnv64 UNIQUE_SEED64 site T_double 0x40091EB851EB851F
     = Some 0x4008000000000000
   \<and> MakeXorConstant_GetCrypt key64 fnv64 UNIQUE_SEED64 site T_double 0x40091EB851EB851F
     \<noteq> Some 0x40091EB851EB851F"
  by (simp add: MakeXorConstant_GetCrypt_eq cast_eval)

text \<open>
  C7 (raw accessor), as amended. For every instance, \<^verbatim>\<open>Get\<close> returns the low 64 stored
  bits, read as a signed integer and converted to \<open>T\<close> by value, and leaves the object as
  it is; on a constructed instance that is the conversion of
  \<open>(value XOR xorKey) + addKey\<close>, no inverse transform applied. For an integral \<open>T\<close>
  other than \<^verbatim>\<open>bool\<close> the result is the low \<open>bit_width T\<close> stored bits, unchanged;
  for \<^verbatim>\<open>bool\<close> it is whether the stored bits are nonzero; for a floating-point \<open>T\<close>
  it is the stored signed integer converted to the nearest value of \<open>T\<close>.
\<close>

theorem raw_accessor:
  "Get T this = (static_cast_from_int64 T (mm_cvtsi128_si64 (m_encryptedData this)), this)
   \<and> fst (Get T (XorConstant_ctor key64 v Seed))
     = static_cast_from_int64 T ((v XOR XorKey key64 Seed) + AddKey key64 Seed)
   \<and> (is_integral T \<and> T \<noteq> T_bool
        \<longrightarrow> fst (Get T this) = reinterpret_as T (mm_cvtsi128_si64 (m_encryptedData this)))
   \<and> (T = T_bool
        \<longrightarrow> fst (Get T this) = (if mm_cvtsi128_si64 (m_encryptedData this) = 0 then 0 else 1))
   \<and> (is_floating_point T
        \<longrightarrow> fst (Get T this)
            = float_of_int (exponent_bits T) (fraction_bits T)
                (sint (mm_cvtsi128_si64 (m_encryptedData this))))"
  by (simp add: Get_def mm_cvtsi128_si64_def lane0_ctor static_cast_from_int64_def
      reinterpret_as_def is_integral_def)

theorem raw_accessor_witness:
  "is_integral T_int32 \<and> T_int32 \<noteq> T_bool
   \<and> fst (Get T_int32 (XorConstant_ctor fnv_key64 42 0x1111))
     = reinterpret_as T_int32
         (mm_cvtsi128_si64 (m_encryptedData (XorConstant_ctor fnv_key64 42 0x1111)))
   \<and> fst (Get T_int32 (XorConstant_ctor fnv_key64 42 0x1111)) = 205066999
   \<and> fst (Get T_bool (XorConstant_ctor fnv_key64 42 0x1111)) = 1
   \<and> is_floating_point T_float
   \<and> fst (Get T_float (XorConstant_ctor fnv_key64 42 0x1111))
     = float_of_int 8 23 0x5ee70b990c3912f7"
  using raw_accessor [of T_int32 "XorConstant_ctor fnv_key64 42 0x1111" fnv_key64 42 "0x1111"]
    raw_accessor [of T_bool "XorConstant_ctor fnv_key64 42 0x1111" fnv_key64 42 "0x1111"]
    raw_accessor [of T_float "XorConstant_ctor fnv_key64 42 0x1111" fnv_key64 42 "0x1111"]
  by (simp add: is_integral_def Get_def mm_cvtsi128_si64_def lane0_ctor reinterpret_as_def
      static_cast_from_int64_def fnv_eval)

text \<open>
  C7 as stated fails for a floating-point \<open>T\<close>: on the instance constructed from 3
  with seed 0x1111 the stored bits are 0x5ee70b990c391320, and \<^verbatim>\<open>Get\<close> for
  \<^verbatim>\<open>double\<close> returns 0x43d7b9c2e6430e45, the \<^verbatim>\<open>double\<close> nearest to the stored integer,
  not the stored bits reinterpreted.
\<close>

theorem raw_accessor_converts_counterexample:
  "reinterpret_as T_double
     (mm_cvtsi128_si64 (m_encryptedData (XorConstant_ctor fnv_key64 3 0x1111)))
     = 0x5ee70b990c391320
   \<and> fst (Get T_double (XorConstant_ctor fnv_key64 3 0x1111)) = 0x43d7b9c2e6430e45
   \<and> fst (Get T_double (XorConstant_ctor fnv_key64 3 0x1111))
     \<noteq> reinterpret_as T_double
         (mm_cvtsi128_si64 (m_encryptedData (XorConstant_ctor fnv_key64 3 0x1111)))"
  by (simp add: Get_def reinterpret_as_def mm_cvtsi128_si64_def lane0_ctor fnv_eval cast_eval)

text \<open>
  C8 (idempotence and immutability of reads). Any sequence of calls of \<^verbatim>\<open>Get\<close> and
  \<^verbatim>\<open>GetCrypt\<close> on an instance leaves the instance, hence \<open>m_encryptedData\<close>, as it was,
  and every call in the sequence returns what the same call returns on the instance as
  constructed: repeated reads return identical bits, and the holder has one state.
\<close>

theorem reads_idempotent:
  "calls key64 T Seed cs this = (map (\<lambda>c. fst (call key64 T Seed c this)) cs, this)"
proof (induction cs)
  case Nil
  show ?case by simp
next
  case (Cons c cs)
  obtain r where "call key64 T Seed c this = (r, this)"
    using call_unchanged by blast
  with Cons show ?case by simp
qed


text \<open>
  C9 (failure semantics), as amended. Failures happen at build time only, and there are
  two kinds. Instantiating the class is rejected exactly when \<open>T\<close> is not arithmetic. The
  macro, for an arithmetic \<open>T\<close>, does not build exactly when the conversion of the
  constant to \<^verbatim>\<open>uint64_t\<close> is undefined: never for an integral \<open>T\<close>, and for a
  floating-point \<open>T\<close> exactly when the constant is at most -1, at least 2^64, an infinity
  or a NaN; otherwise it yields the constructed object. On every object both accessors
  return a value and the object: construction, raw read and decrypting read are total,
  and their conversion from the 64-bit integer to a floating-point \<open>T\<close> is always in
  range (its result is finite).
\<close>

theorem failure_semantics:
  "(\<exists>e. MakeXorConstantImpl key64 T cv Seed = Inl e) = (\<not> is_arithmetic T)
   \<and> MakeXorConstantImpl key64 (Arithmetic A) cv Seed = Inr (XorConstant_ctor key64 cv Seed)
   \<and> (MakeXorConstant key64 fnv64 UNIQUE_SEED64 site A v = None)
       = (static_cast_uint64 A v = None)
   \<and> (static_cast_uint64 A v = Some c \<longrightarrow>
        MakeXorConstant key64 fnv64 UNIQUE_SEED64 site A v
          = Some (Inr (XorConstant_ctor key64 c (fnv64 UNIQUE_SEED64 (FILE site)))))
   \<and> (is_integral A \<longrightarrow> static_cast_uint64 A v \<noteq> None)
   \<and> (is_floating_point A \<longrightarrow>
        (static_cast_uint64 A v = None)
          = (float_value A v \<le> - 1 \<or> 2 ^ 64 \<le> float_value A v \<or> \<not> is_finite_float A v))
   \<and> (\<exists>r. Get A this = (r, this))
   \<and> (\<exists>r. GetCrypt key64 A Seed this = (r, this))
   \<and> (is_floating_point A \<longrightarrow>
        is_finite_float A (fst (Get A this))
        \<and> is_finite_float A (fst (GetCrypt key64 A Seed this)))"
proof (intro conjI impI)
  show "(\<exists>e. MakeXorConstantImpl key64 T cv Seed = Inl e) = (\<not> is_arithmetic T)"
    by (simp add: MakeXorConstantImpl_def)
  show "MakeXorConstantImpl key64 (Arithmetic A) cv Seed = Inr (XorConstant_ctor key64 cv Seed)"
    by (simp add: MakeXorConstantImpl_def)
  show "(MakeXorConstant key64 fnv64 UNIQUE_SEED64 site A v = None)
      = (static_cast_uint64 A v = None)"
    by (rule MakeXorConstant_None_iff)
  show "\<exists>r. Get A this = (r, this)"
    by (simp add: Get_def)
  show "\<exists>r. GetCrypt key64 A Seed this = (r, this)"
    by (simp add: GetCrypt_eq)
next
  assume "static_cast_uint64 A v = Some c"
  then show "MakeXorConstant key64 fnv64 UNIQUE_SEED64 site A v
      = Some (Inr (XorConstant_ctor key64 c (fnv64 UNIQUE_SEED64 (FILE site))))"
    by (simp add: MakeXorConstant_def MakeXorConstantImpl_def)
next
  assume "is_integral A"
  then show "static_cast_uint64 A v \<noteq> None"
    by (rule integral_cast_defined)
next
  assume "is_floating_point A"
  then show "(static_cast_uint64 A v = None)
      = (float_value A v \<le> - 1 \<or> 2 ^ 64 \<le> float_value A v \<or> \<not> is_finite_float A v)"
    by (rule static_cast_uint64_undefined_iff)
next
  assume fl: "is_floating_point A"
  then show "is_finite_float A (fst (Get A this))"
    by (simp add: Get_def static_cast_finite)
  from fl show "is_finite_float A (fst (GetCrypt key64 A Seed this))"
    by (simp add: GetCrypt_eq static_cast_finite)
qed

theorem failure_semantics_witness:
  "is_floating_point T_double
   \<and> static_cast_uint64 T_double 0xBFF0000000000000 = None
   \<and> (float_value T_double 0xBFF0000000000000 \<le> - 1
        \<or> 2 ^ 64 \<le> float_value T_double 0xBFF0000000000000
        \<or> \<not> is_finite_float T_double 0xBFF0000000000000)
   \<and> is_finite_float T_double (fst (Get T_double (XorConstant_ctor fnv_key64 3 0x1111)))
   \<and> is_finite_float T_double
       (fst (GetCrypt fnv_key64 T_double 0x1111 (XorConstant_ctor fnv_key64 3 0x1111)))
   \<and> static_cast_uint64 T_double 0x40091EB851EB851F = Some 3
   \<and> MakeXorConstant fnv_key64 fnv_fnv64 0x1111 \<lparr>FILE = ''main.cpp'', LINE = 8\<rparr>
         T_double 0x40091EB851EB851F
       = Some (Inr (XorConstant_ctor fnv_key64 3 (fnv_fnv64 0x1111 ''main.cpp'')))
   \<and> is_integral T_int32
   \<and> static_cast_uint64 T_int32 0xFFFFFFD6 \<noteq> None"
  using failure_semantics [of fnv_key64 "Arithmetic T_double" 3 "0x1111" T_double fnv_fnv64
      "0x1111" "\<lparr>FILE = ''main.cpp'', LINE = 8\<rparr>" "0xBFF0000000000000" 0
      "XorConstant_ctor fnv_key64 3 0x1111"]
    failure_semantics [of fnv_key64 "Arithmetic T_double" 3 "0x1111" T_double fnv_fnv64
      "0x1111" "\<lparr>FILE = ''main.cpp'', LINE = 8\<rparr>" "0x40091EB851EB851F" 3
      "XorConstant_ctor fnv_key64 3 0x1111"]
    failure_semantics [of fnv_key64 "Arithmetic T_int32" 3 "0x1111" T_int32 fnv_fnv64
      "0x1111" "\<lparr>FILE = ''main.cpp'', LINE = 8\<rparr>" "0xFFFFFFD6" 0
      "XorConstant_ctor fnv_key64 3 0x1111"]
  by (simp add: cast_eval is_integral_def)

text \<open>
  C9 as stated fails: \<^verbatim>\<open>double\<close> is arithmetic and passes the class's
  \<^verbatim>\<open>static_assert\<close>, yet \<^verbatim>\<open>MakeXorConstant(-1.5)\<close> (0xBFF8000000000000) does not
  build, since -1.5 truncates to -1, which \<^verbatim>\<open>uint64_t\<close> cannot hold.
\<close>

theorem macro_rejects_negative_double_counterexample:
  "is_arithmetic (Arithmetic T_double)
   \<and> MakeXorConstantImpl fnv_key64 (Arithmetic T_double) 0 0x1111
       \<noteq> Inl Static_assert_not_arithmetic
   \<and> MakeXorConstant fnv_key64 fnv_fnv64 0x1111 \<lparr>FILE = ''main.cpp'', LINE = 5\<rparr>
         T_double 0xBFF8000000000000 = None"
  by (simp add: MakeXorConstant_def MakeXorConstantImpl_def cast_eval)

text \<open>
  C10 (the macro converts before encrypting). Whenever the conversion
  \<^verbatim>\<open>static_cast<uint64_t>(v)\<close> is defined, with result \<open>cv\<close>, the macro constructs the
  instance from \<open>cv\<close> and \<^verbatim>\<open>GetCrypt\<close> returns \<^verbatim>\<open>static_cast<T>(cv)\<close>. For a
  floating-point \<open>T\<close>, \<open>cv\<close> is the value of \<open>v\<close> truncated towards zero, and when it has
  no more digits than the significand, the returned pattern denotes exactly that
  truncated integer. For the \<^verbatim>\<open>double\<close> 3.14 (0x40091EB851EB851F) \<open>cv\<close> is 3, and
  \<^verbatim>\<open>static_cast<double>(3)\<close> is 3.0 (0x4008000000000000). For a value of an integral
  type of any width the two conversions compose to the identity.
\<close>

theorem macro_converts_before_encrypting:
  "(static_cast_uint64 T v = Some cv \<longrightarrow>
      MakeXorConstant key64 fnv64 UNIQUE_SEED64 site T v
        = Some (Inr (XorConstant_ctor key64 cv (fnv64 UNIQUE_SEED64 (FILE site))))
      \<and> MakeXorConstant_GetCrypt key64 fnv64 UNIQUE_SEED64 site T v
        = Some (static_cast_from_uint64 T cv))
   \<and> (is_floating_point T \<and> static_cast_uint64 T v = Some cv \<longrightarrow>
        int (unat cv) = truncate_towards_zero (float_value T v)
        \<and> (unat cv < 2 ^ Suc (fraction_bits T) \<longrightarrow>
             float_magnitude T (static_cast_from_uint64 T cv)
               = real_of_int (truncate_towards_zero (float_value T v))))
   \<and> static_cast_uint64 T_double 0x40091EB851EB851F = Some 3
   \<and> static_cast_from_uint64 T_double 3 = 0x4008000000000000
   \<and> (is_integral T \<and> valid_repr T v \<longrightarrow>
        MakeXorConstant_GetCrypt key64 fnv64 UNIQUE_SEED64 site T v = Some v)"
proof (intro conjI impI)
  assume "static_cast_uint64 T v = Some cv"
  then show "MakeXorConstant key64 fnv64 UNIQUE_SEED64 site T v
        = Some (Inr (XorConstant_ctor key64 cv (fnv64 UNIQUE_SEED64 (FILE site))))"
    and "MakeXorConstant_GetCrypt key64 fnv64 UNIQUE_SEED64 site T v
        = Some (static_cast_from_uint64 T cv)"
    by (simp_all add: MakeXorConstant_GetCrypt_eq MakeXorConstant_def MakeXorConstantImpl_def)
next
  assume fl: "is_floating_point T \<and> static_cast_uint64 T v = Some cv"
  then have "is_floating_point T" and "static_cast_uint64 T v = Some cv"
    by simp_all
  then show tr: "int (unat cv) = truncate_towards_zero (float_value T v)"
    by (rule static_cast_uint64_truncation)
  assume "unat cv < 2 ^ Suc (fraction_bits T)"
  with fl have "float_magnitude T (float_of_nat (exponent_bits T) (fraction_bits T) (unat cv))
      = real (unat cv)"
    by (simp add: float_of_nat_exact)
  moreover from fl have "static_cast_from_uint64 T cv
      = float_of_nat (exponent_bits T) (fraction_bits T) (unat cv)"
    by (cases T) (simp_all add: static_cast_from_uint64_def)
  ultimately have "float_magnitude T (static_cast_from_uint64 T cv) = real (unat cv)"
    by (simp only:)
  also have "\<dots> = real_of_int (int (unat cv))"
    by simp
  finally show "float_magnitude T (static_cast_from_uint64 T cv)
      = real_of_int (truncate_towards_zero (float_value T v))"
    by (simp only: tr)
next
  show "static_cast_uint64 T_double 0x40091EB851EB851F = Some 3"
    by (simp add: cast_eval)
  show "static_cast_from_uint64 T_double 3 = 0x4008000000000000"
    by (simp add: cast_eval)
next
  assume "is_integral T \<and> valid_repr T v"
  then obtain cv' where "static_cast_uint64 T v = Some cv'"
    and "static_cast_from_uint64 T cv' = v"
    using integral_cast_round_trip by blast
  then show "MakeXorConstant_GetCrypt key64 fnv64 UNIQUE_SEED64 site T v = Some v"
    by (simp add: MakeXorConstant_GetCrypt_eq)
qed

theorem macro_converts_before_encrypting_witness:
  "is_floating_point T_float
   \<and> static_cast_uint64 T_float 0x4048F5C3 = Some 3
   \<and> unat (3 :: uint64_t) < 2 ^ Suc (fraction_bits T_float)
   \<and> MakeXorConstant fnv_key64 fnv_fnv64 0x1111 \<lparr>FILE = ''main.cpp'', LINE = 3\<rparr>
         T_float 0x4048F5C3
       = Some (Inr (XorConstant_ctor fnv_key64 3 (fnv_fnv64 0x1111 ''main.cpp'')))
   \<and> MakeXorConstant_GetCrypt fnv_key64 fnv_fnv64 0x1111 \<lparr>FILE = ''main.cpp'', LINE = 3\<rparr>
         T_float 0x4048F5C3
       = Some 0x40400000
   \<and> truncate_towards_zero (float_value T_float 0x4048F5C3) = 3
   \<and> float_magnitude T_float 0x40400000 = 3
   \<and> is_integral T_int8 \<and> valid_repr T_int8 0xD6
   \<and> MakeXorConstant_GetCrypt fnv_key64 fnv_fnv64 0x1111 \<lparr>FILE = ''main.cpp'', LINE = 3\<rparr>
         T_int8 0xD6
       = Some 0xD6"
  using macro_converts_before_encrypting [of T_float "0x4048F5C3" 3 fnv_key64 fnv_fnv64 "0x1111"
      "\<lparr>FILE = ''main.cpp'', LINE = 3\<rparr>"]
    macro_converts_before_encrypting [of T_int8 "0xD6" 0 fnv_key64 fnv_fnv64 "0x1111"
      "\<lparr>FILE = ''main.cpp'', LINE = 3\<rparr>"]
  by (simp add: cast_eval is_integral_def valid_repr_def)

end
